theory Spec2Isabelle
  imports Complex_Main "HOL-Library.Sublist"
begin

section \<open>Strings and the library functions the program calls\<close>

text \<open>
  A Go string is a sequence of bytes, modelled as \<^typ>\<open>string\<close>. Every content string
  the program handles was produced by the JSON decoder and is therefore well-formed UTF-8;
  on such text the rune loop of \<open>stripHTML\<close> meets \<open><\<close> and \<open>>\<close> exactly where the
  bytes \<open>0x3C\<close> and \<open>0x3E\<close> stand, and appending \<open>string(char)\<close> appends the bytes of the
  rune unchanged, so the loop is modelled byte by byte.
\<close>

abbreviation newline :: char where "newline \<equiv> CHR 0x0A"
abbreviation dquote :: char where "dquote \<equiv> CHR 0x22"
abbreviation squote :: char where "squote \<equiv> CHR 0x27"

text \<open>
  \<open>strings.ReplaceAll(s, old, new)\<close>: the non-overlapping occurrences of \<open>old\<close> are
  replaced from left to right. For an empty \<open>old\<close> the library inserts \<open>new\<close> before
  every character and at the end.
\<close>

function replaceAll :: "string \<Rightarrow> string \<Rightarrow> string \<Rightarrow> string" where
  "replaceAll s old new =
     (if old = [] then new @ concat (map (\<lambda>c. c # new) s)
      else if s = [] then []
      else if prefix old s then new @ replaceAll (drop (length old) s) old new
      else hd s # replaceAll (tl s) old new)"
  by pat_completeness auto
termination
  by (relation "measure (\<lambda>(s, old, new). length s)") auto

declare replaceAll.simps [simp del]

text \<open>The verb \<open>%d\<close> of \<open>fmt\<close>: an integer in decimal, with a minus sign when negative.\<close>

fun digits :: "nat \<Rightarrow> string" where
  "digits n = (if n < 10 then [char_of (48 + n)] else digits (n div 10) @ [char_of (48 + n mod 10)])"

declare digits.simps [simp del]

definition show_int :: "int \<Rightarrow> string" where
  "show_int i = (if i < 0 then CHR ''-'' # digits (nat (- i)) else digits (nat i))"

text \<open>
  The conversion \<open>int(x)\<close> of a \<open>float64\<close>: the fraction is discarded (truncation
  towards zero). The decoder yields finite values only; a value beyond the range of
  \<open>int\<close> has no portable result in Go and is truncated here like any other.
\<close>

definition go_int :: "real \<Rightarrow> int" where
  "go_int x = (if 0 \<le> x then \<lfloor>x\<rfloor> else \<lceil>x\<rceil>)"

section \<open>Decoded JSON values\<close>

text \<open>
  What \<open>json.Unmarshal\<close> stores in an \<open>interface{}\<close>: \<open>nil\<close>, \<open>bool\<close>,
  \<open>float64\<close>, \<open>string\<close>, \<open>[]interface{}\<close> or \<open>map[string]interface{}\<close>.
  A variable of type \<open>map[string]interface{}\<close> may also be the \<open>nil\<close> map
  (\<open>None\<close> below); reading a key of it finds nothing.
\<close>

datatype json =
    JNull
  | JBool bool
  | JNumber real
  | JString string
  | JArray "json list"
  | JObject "string \<Rightarrow> json option"

type_synonym gomap = "(string \<Rightarrow> json option) option"

text \<open>\<open>m[key]\<close>: the value stored under the key, nothing for an absent key or a nil map.\<close>

definition index :: "gomap \<Rightarrow> string \<Rightarrow> json option" where
  "index m key = (case m of None \<Rightarrow> None | Some f \<Rightarrow> f key)"

text \<open>
  The type assertions \<open>v.(map[string]interface{})\<close> and \<open>v.([]interface{})\<close> in their
  two-result form: the zero value and \<open>false\<close> when the dynamic type differs.
\<close>

definition assert_map :: "json option \<Rightarrow> gomap \<times> bool" where
  "assert_map v = (case v of Some (JObject f) \<Rightarrow> (Some f, True) | _ \<Rightarrow> (None, False))"

definition assert_slice :: "json option \<Rightarrow> json list \<times> bool" where
  "assert_slice v = (case v of Some (JArray xs) \<Rightarrow> (xs, True) | _ \<Rightarrow> ([], False))"

definition getStringField :: "gomap \<Rightarrow> string \<Rightarrow> string" where
  "getStringField m key =
     (if m = None then []
      else case index m key of Some (JString val) \<Rightarrow> val | _ \<Rightarrow> [])"

definition getFloatField :: "gomap \<Rightarrow> string \<Rightarrow> real" where
  "getFloatField m key =
     (if m = None then 0
      else case index m key of Some (JNumber val) \<Rightarrow> val | _ \<Rightarrow> 0)"

section \<open>stripHTML\<close>

text \<open>
  The body of the \<open>for _, char := range s\<close> loop, on the pair of the two variables
  \<open>result\<close> and \<open>inTag\<close> it updates.
\<close>

definition scan_step :: "string \<times> bool \<Rightarrow> char \<Rightarrow> string \<times> bool" where
  "scan_step st char =
     (let (result, inTag) = st in
      if char = CHR ''<'' then (result, True)
      else if char = CHR ''>'' then (result, False)
      else if \<not> inTag then (result @ [char], inTag)
      else (result, inTag))"

definition scan :: "string \<Rightarrow> string \<times> bool" where
  "scan s = foldl scan_step ([], False) s"

text \<open>The nine calls of \<open>strings.ReplaceAll\<close> that follow the loop, in the source's order.\<close>

definition replaceEntities :: "string \<Rightarrow> string" where
  "replaceEntities result0 =
     (let result = replaceAll result0 ''&lt;'' ''<'';
          result = replaceAll result ''&gt;'' ''>'';
          result = replaceAll result ''&amp;'' ''&'';
          result = replaceAll result ''&quot;'' [dquote];
          result = replaceAll result ''&#39;'' [squote];
          result = replaceAll result ''<br>'' [newline];
          result = replaceAll result ''<br/>'' [newline];
          result = replaceAll result ''<br />'' [newline];
          result = replaceAll result ''</p><p>'' [newline, newline]
      in result)"

definition stripHTML :: "string \<Rightarrow> string" where
  "stripHTML s = replaceEntities (fst (scan s))"

section \<open>Text rendering\<close>

text \<open>
  The value handed to the formatters is an \<open>interface{}\<close> whose dynamic type is
  \<open>[]map[string]interface{}\<close> (timelines, mentions) or \<open>map[string]interface{}\<close>
  (search).
\<close>

datatype data = MapSlice "gomap list" | MapValue gomap

text \<open>The local variables of one round of the loop of \<open>formatStatuses\<close>.\<close>

record post =
  isReblog :: bool
  boostedBy :: string
  content :: string
  createdAt :: string
  reblogsCount :: real
  favoritesCount :: real
  repliesCount :: real
  postURL :: string
  username :: string
  displayName :: string

definition extract_post :: "gomap \<Rightarrow> post" where
  "extract_post status =
     (let (reblog, isReblog) = assert_map (index status ''reblog'');
          boostedBy =
            (if isReblog
             then (let (account, _) = assert_map (index status ''account'')
                   in getStringField account ''username'')
             else []);
          (content, createdAt, reblogsCount, favoritesCount, repliesCount, postURL, postAccount) =
            (if isReblog
             then (getStringField reblog ''content'',
                   getStringField reblog ''created_at'',
                   getFloatField reblog ''reblogs_count'',
                   getFloatField reblog ''favourites_count'',
                   getFloatField reblog ''replies_count'',
                   getStringField reblog ''url'',
                   fst (assert_map (index reblog ''account'')))
             else (getStringField status ''content'',
                   getStringField status ''created_at'',
                   getFloatField status ''reblogs_count'',
                   getFloatField status ''favourites_count'',
                   getFloatField status ''replies_count'',
                   getStringField status ''url'',
                   fst (assert_map (index status ''account''))));
          username = getStringField postAccount ''username'';
          displayName = getStringField postAccount ''display_name'';
          content = stripHTML content
      in \<lparr>isReblog = isReblog,
          boostedBy = boostedBy,
          content = content,
          createdAt = createdAt,
          reblogsCount = reblogsCount,
          favoritesCount = favoritesCount,
          repliesCount = repliesCount,
          postURL = postURL,
          username = username,
          displayName = displayName\<rparr>)"

text \<open>The pictographs of the output, as the UTF-8 bytes of the source file.\<close>

definition repeat_sign :: string where
  "repeat_sign = [CHR 0xF0, CHR 0x9F, CHR 0x94, CHR 0x81]"

definition speech_sign :: string where
  "speech_sign = [CHR 0xF0, CHR 0x9F, CHR 0x92, CHR 0xAC]"

definition star_sign :: string where
  "star_sign = [CHR 0xE2, CHR 0xAD, CHR 0x90]"

definition link_sign :: string where
  "link_sign = [CHR 0xF0, CHR 0x9F, CHR 0x94, CHR 0x97]"

text \<open>The seven \<open>fmt.Printf\<close> calls that end a round; \<open>i\<close> is the index of the loop.\<close>

definition print_post :: "nat \<Rightarrow> post \<Rightarrow> string" where
  "print_post i p =
     ''--- Post '' @ show_int (int i + 1) @ '' ---'' @ [newline]
     @ (if isReblog p then repeat_sign @ '' @'' @ boostedBy p @ '' boosted'' @ [newline] else [])
     @ ''@'' @ username p @ '' ('' @ displayName p @ '')'' @ [newline]
     @ createdAt p @ [newline]
     @ [newline] @ content p @ [newline, newline]
     @ speech_sign @ '' '' @ show_int (go_int (repliesCount p))
       @ ''  '' @ repeat_sign @ '' '' @ show_int (go_int (reblogsCount p))
       @ ''  '' @ star_sign @ '' '' @ show_int (go_int (favoritesCount p)) @ [newline]
     @ link_sign @ '' '' @ postURL p @ [newline, newline]"

definition formatStatuses :: "data \<Rightarrow> string" where
  "formatStatuses d =
     (case d of
        MapSlice statuses \<Rightarrow>
          if length statuses = 0 then ''No posts found.'' @ [newline]
          else concat (map (\<lambda>(i, status). print_post i (extract_post status))
                           (enumerate 0 statuses))
      | _ \<Rightarrow> ''Error: unexpected data format'' @ [newline])"

definition print_mention :: "nat \<Rightarrow> gomap \<Rightarrow> string" where
  "print_mention i mention =
     (let (account, _) = assert_map (index mention ''account'');
          username = getStringField account ''username'';
          displayName = getStringField account ''display_name'';
          (status, _) = assert_map (index mention ''status'');
          content = getStringField status ''content'';
          createdAt = getStringField mention ''created_at'';
          content = stripHTML content
      in ''--- Mention '' @ show_int (int i + 1) @ '' ---'' @ [newline]
         @ ''@'' @ username @ '' ('' @ displayName @ '') mentioned you'' @ [newline]
         @ createdAt @ [newline]
         @ [newline] @ content @ [newline, newline])"

definition formatMentions :: "data \<Rightarrow> string" where
  "formatMentions d =
     (case d of
        MapSlice mentions \<Rightarrow>
          if length mentions = 0 then ''No mentions found.'' @ [newline]
          else concat (map (\<lambda>(i, mention). print_mention i mention) (enumerate 0 mentions))
      | _ \<Rightarrow> ''Error: unexpected data format'' @ [newline])"

definition formatSearchResults :: "data \<Rightarrow> string" where
  "formatSearchResults d =
     (case d of
        MapValue searchResult \<Rightarrow>
          (let (statuses, _) = assert_slice (index searchResult ''statuses'')
           in if length statuses = 0 then ''No posts found.'' @ [newline]
              else formatStatuses
                     (MapSlice (map (\<lambda>s. fst (assert_map (Some s))) statuses)))
      | _ \<Rightarrow> ''Error: unexpected data format'' @ [newline])"

definition formatText :: "string \<Rightarrow> data \<Rightarrow> string" where
  "formatText command d =
     (if command = ''home'' \<or> command = ''user-tweets'' then formatStatuses d
      else if command = ''mentions'' then formatMentions d
      else if command = ''search'' then formatSearchResults d
      else ''Unknown command format'' @ [newline])"

section \<open>Fetching\<close>

text \<open>
  The errors the program builds with \<open>fmt.Errorf\<close>, one constructor for each call site;
  \<open>Error\<close> is the message \<open>err.Error()\<close> of each. A wrapped cause (\<open>%w\<close>) is kept
  as its message.
\<close>

datatype error =
    CreatingRequest string
  | MakingRequest string
  | ReadingResponse string
  | ApiError int string
  | ParsingResponse string
  | ParsingAccount string
  | AccountIDNotFound

fun Error :: "error \<Rightarrow> string" where
  "Error (CreatingRequest cause) = ''creating request: '' @ cause"
| "Error (MakingRequest cause) = ''making request: '' @ cause"
| "Error (ReadingResponse cause) = ''reading response: '' @ cause"
| "Error (ApiError statusCode body) =
     ''API error (status '' @ show_int statusCode @ ''): '' @ body"
| "Error (ParsingResponse cause) = ''parsing response: '' @ cause"
| "Error (ParsingAccount cause) = ''parsing account: '' @ cause"
| "Error AccountIDNotFound = ''account ID not found''"

text \<open>The command-line flags, read after \<open>flag.Parse\<close> has accepted the command line.\<close>

record flags =
  flagInstanceURL :: string
  flagTimeout :: int
  flagLimit :: int
  flagJSON :: bool

text \<open>
  What lies outside the program: the standard library and the network.
  \<^item> \<open>new_request url\<close> is the error of \<open>http.NewRequestWithContext\<close>, if any;
  \<^item> \<open>client_do url token\<close> is the answer of \<open>client.Do\<close> to the request for \<open>url\<close>
    that carries \<open>Bearer token\<close>: a transport error, or the status code together with
    what \<open>io.ReadAll\<close> makes of the body (an error, or the bytes);
  \<^item> \<open>unmarshal_slice\<close> and \<open>unmarshal_map\<close> are \<open>json.Unmarshal\<close> into a
    \<open>[]map[string]interface{}\<close> and into a \<open>map[string]interface{}\<close>;
  \<^item> \<open>marshal_data\<close> is \<open>json.Marshal\<close> of the successful response, \<open>marshal_string\<close>
    the JSON encoding of a string, quotes included;
  \<^item> \<open>query_escape\<close> is \<open>url.QueryEscape\<close>.
\<close>

record world =
  new_request :: "string \<Rightarrow> string option"
  client_do :: "string \<Rightarrow> string \<Rightarrow> string + (int \<times> (string + string))"
  unmarshal_slice :: "string \<Rightarrow> string + gomap list"
  unmarshal_map :: "string \<Rightarrow> string + gomap"
  marshal_data :: "data \<Rightarrow> string + string"
  marshal_string :: "string \<Rightarrow> string"
  query_escape :: "string \<Rightarrow> string"

text \<open>
  Every fetching function returns, next to its result, the list of the URLs for which
  \<open>client.Do\<close> was called, in order.
\<close>

definition makeRequest :: "world \<Rightarrow> flags \<Rightarrow> string \<Rightarrow> string \<Rightarrow> string list \<times> (error + string)" where
  "makeRequest w fl token endpoint =
     (let reqURL = flagInstanceURL fl @ endpoint in
      case new_request w reqURL of
        Some cause \<Rightarrow> ([], Inl (CreatingRequest cause))
      | None \<Rightarrow>
          (case client_do w reqURL token of
             Inl cause \<Rightarrow> ([reqURL], Inl (MakingRequest cause))
           | Inr (statusCode, read) \<Rightarrow>
               (case read of
                  Inl cause \<Rightarrow> ([reqURL], Inl (ReadingResponse cause))
                | Inr body \<Rightarrow>
                    if statusCode \<noteq> 200 then ([reqURL], Inl (ApiError statusCode body))
                    else ([reqURL], Inr body))))"

definition getHomeTimeline :: "world \<Rightarrow> flags \<Rightarrow> string \<Rightarrow> string list \<times> (error + data)" where
  "getHomeTimeline w fl token =
     (let endpoint = ''/api/v1/timelines/home?limit='' @ show_int (flagLimit fl);
          (calls, r) = makeRequest w fl token endpoint
      in case r of
           Inl err \<Rightarrow> (calls, Inl err)
         | Inr body \<Rightarrow>
             (case unmarshal_slice w body of
                Inl cause \<Rightarrow> (calls, Inl (ParsingResponse cause))
              | Inr timeline \<Rightarrow> (calls, Inr (MapSlice timeline))))"

definition getUserTweets :: "world \<Rightarrow> flags \<Rightarrow> string \<Rightarrow> string list \<times> (error + data)" where
  "getUserTweets w fl token =
     (let (calls, r) = makeRequest w fl token ''/api/v1/accounts/verify_credentials''
      in case r of
           Inl err \<Rightarrow> (calls, Inl err)
         | Inr body \<Rightarrow>
             (case unmarshal_map w body of
                Inl cause \<Rightarrow> (calls, Inl (ParsingAccount cause))
              | Inr account \<Rightarrow>
                  (case index account ''id'' of
                     Some (JString accountID) \<Rightarrow>
                       (let endpoint = ''/api/v1/accounts/'' @ accountID @ ''/statuses?limit=''
                                       @ show_int (flagLimit fl);
                            (calls2, r2) = makeRequest w fl token endpoint
                        in case r2 of
                             Inl err \<Rightarrow> (calls @ calls2, Inl err)
                           | Inr body2 \<Rightarrow>
                               (case unmarshal_slice w body2 of
                                  Inl cause \<Rightarrow> (calls @ calls2, Inl (ParsingResponse cause))
                                | Inr statuses \<Rightarrow> (calls @ calls2, Inr (MapSlice statuses))))
                   | _ \<Rightarrow> (calls, Inl AccountIDNotFound))))"

definition getMentions :: "world \<Rightarrow> flags \<Rightarrow> string \<Rightarrow> string list \<times> (error + data)" where
  "getMentions w fl token =
     (let endpoint = ''/api/v1/notifications?limit='' @ show_int (flagLimit fl)
                     @ ''&types[]=mention'';
          (calls, r) = makeRequest w fl token endpoint
      in case r of
           Inl err \<Rightarrow> (calls, Inl err)
         | Inr body \<Rightarrow>
             (case unmarshal_slice w body of
                Inl cause \<Rightarrow> (calls, Inl (ParsingResponse cause))
              | Inr mentions \<Rightarrow> (calls, Inr (MapSlice mentions))))"

definition searchPosts :: "world \<Rightarrow> flags \<Rightarrow> string \<Rightarrow> string \<Rightarrow> string list \<times> (error + data)" where
  "searchPosts w fl token query =
     (let endpoint = ''/api/v2/search?q='' @ query_escape w query
                     @ ''&type=statuses&limit='' @ show_int (flagLimit fl);
          (calls, r) = makeRequest w fl token endpoint
      in case r of
           Inl err \<Rightarrow> (calls, Inl err)
         | Inr body \<Rightarrow>
             (case unmarshal_map w body of
                Inl cause \<Rightarrow> (calls, Inl (ParsingResponse cause))
              | Inr searchResult \<Rightarrow> (calls, Inr (MapValue searchResult))))"

section \<open>The program\<close>

text \<open>
  One run of the program: what it wrote to the two streams, its exit code, and the
  requests it sent.
\<close>

record outcome =
  stdout :: string
  stderr :: string
  exit_code :: int
  requests :: "string list"

text \<open>
  The encoding of \<open>MastodonResponse{Success: false, Error: &msg}\<close>: the field \<open>data\<close>
  is empty and omitted.
\<close>

definition error_envelope :: "world \<Rightarrow> string \<Rightarrow> string" where
  "error_envelope w msg =
     [CHR ''{'', dquote] @ ''success'' @ [dquote] @ '':false,'' @ [dquote] @ ''error''
     @ [dquote] @ '':'' @ marshal_string w msg @ ''}''"

text \<open>\<open>outputError(msg)\<close> followed by \<open>os.Exit(1)\<close>, after the requests \<open>calls\<close>.\<close>

definition outputError :: "world \<Rightarrow> string list \<Rightarrow> string \<Rightarrow> outcome" where
  "outputError w calls msg =
     \<lparr>stdout = error_envelope w msg @ [newline],
      stderr = ''Error: '' @ msg @ [newline],
      exit_code = 1,
      requests = calls\<rparr>"

definition usage :: string where
  "usage =
     ''Usage: mastodon-scout <command> [args]'' @ [newline]
     @ ''Commands:'' @ [newline]
     @ ''  home              Get home timeline'' @ [newline]
     @ ''  user-tweets       Get user'' @ [squote] @ ''s tweets'' @ [newline]
     @ ''  mentions          Get mentions'' @ [newline]
     @ ''  search <query>    Search for posts'' @ [newline]"

text \<open>
  The \<open>switch\<close> of \<open>main\<close>: the error message with which the command is refused before
  any fetch, or what the fetch of the command returned.
\<close>

definition run_command :: "world \<Rightarrow> flags \<Rightarrow> string \<Rightarrow> string list \<Rightarrow> string + (string list \<times> (error + data))" where
  "run_command w fl token args =
     (let command = hd args in
      if command = ''home'' then Inr (getHomeTimeline w fl token)
      else if command = ''user-tweets'' then Inr (getUserTweets w fl token)
      else if command = ''mentions'' then Inr (getMentions w fl token)
      else if command = ''search'' then
        (if length args < 2 then Inl ''search command requires a query argument''
         else Inr (searchPosts w fl token (args ! 1)))
      else Inl (''unknown command: '' @ command))"

text \<open>
  \<open>main\<close>, given the flags, the value of \<open>MASTODON_TOKEN\<close> (empty when unset) and the
  arguments that follow the flags.
\<close>

definition main :: "world \<Rightarrow> flags \<Rightarrow> string \<Rightarrow> string list \<Rightarrow> outcome" where
  "main w fl token args =
     (if length args = 0 then
        \<lparr>stdout = [], stderr = usage, exit_code = 1, requests = []\<rparr>
      else if token = [] then
        outputError w [] ''MASTODON_TOKEN environment variable not set''
      else
        (case run_command w fl token args of
           Inl errMsg \<Rightarrow> outputError w [] errMsg
         | Inr (calls, Inl err) \<Rightarrow> outputError w calls (Error err)
         | Inr (calls, Inr d) \<Rightarrow>
             if flagJSON fl then
               (case marshal_data w d of
                  Inl cause \<Rightarrow> outputError w calls (''Error marshaling response: '' @ cause)
                | Inr output \<Rightarrow>
                    \<lparr>stdout = output @ [newline], stderr = [], exit_code = 0, requests = calls\<rparr>)
             else
               \<lparr>stdout = formatText (hd args) d, stderr = [], exit_code = 0, requests = calls\<rparr>))"

section \<open>A canned world for concrete runs\<close>

text \<open>
  A server that answers every request with the same status code and body, and a library
  that decodes every body to the given records. Strings are encoded without escapes.
\<close>

definition default_flags :: flags where
  "default_flags =
     \<lparr>flagInstanceURL = ''https://mastodon.social'', flagTimeout = 30, flagLimit = 20,
      flagJSON = False\<rparr>"

definition canned_world :: "int \<Rightarrow> string \<Rightarrow> gomap list \<Rightarrow> gomap \<Rightarrow> world" where
  "canned_world statusCode body records record =
     \<lparr>new_request = (\<lambda>url. None),
      client_do = (\<lambda>url token. Inr (statusCode, Inr body)),
      unmarshal_slice = (\<lambda>b. Inr records),
      unmarshal_map = (\<lambda>b. Inr record),
      marshal_data = (\<lambda>d. Inr ''{}''),
      marshal_string = (\<lambda>s. [dquote] @ s @ [dquote]),
      query_escape = (\<lambda>q. q)\<rparr>"




section \<open>Properties of replaceAll\<close>

lemma replaceAll_Nil: "old \<noteq> [] \<Longrightarrow> replaceAll [] old new = []"
  by (simp add: replaceAll.simps)

lemma replaceAll_hit:
  "old \<noteq> [] \<Longrightarrow> prefix old (c # cs) \<Longrightarrow>
   replaceAll (c # cs) old new = new @ replaceAll (drop (length old) (c # cs)) old new"
  by (subst replaceAll.simps) simp

lemma replaceAll_miss:
  "old \<noteq> [] \<Longrightarrow> \<not> prefix old (c # cs) \<Longrightarrow>
   replaceAll (c # cs) old new = c # replaceAll cs old new"
  by (subst replaceAll.simps) simp


lemma replaceAll_append:
  assumes "old \<noteq> []"
    and "\<And>v. v \<noteq> [] \<Longrightarrow> v \<noteq> old \<Longrightarrow> suffix v old \<Longrightarrow> \<not> prefix v y"
  shows "replaceAll (x @ y) old new = replaceAll x old new @ replaceAll y old new"
proof (induction x rule: length_induct)
  case (1 x)
  show ?case
  proof (cases x)
    case Nil
    then show ?thesis using assms(1) by (simp add: replaceAll_Nil)
  next
    case (Cons c cs)
    have iff: "prefix old (x @ y) \<longleftrightarrow> prefix old x"
    proof
      assume p: "prefix old (x @ y)"
      show "prefix old x"
      proof (rule ccontr)
        assume np: "\<not> prefix old x"
        from p np obtain v where v: "old = x @ v" "prefix v y"
          by (auto simp: prefix_append)
        from np v have "v \<noteq> []" by auto
        moreover from v Cons have "v \<noteq> old" by auto
        moreover from v have "suffix v old" by (auto simp: suffix_def)
        ultimately show False using assms(2) v(2) by blast
      qed
    next
      assume "prefix old x" then show "prefix old (x @ y)" by (simp add: prefix_prefix)
    qed
    show ?thesis
    proof (cases "prefix old x")
      case True
      then have len: "length old \<le> length x" by (simp add: prefix_length_le)
      have lt: "length (drop (length old) x) < length x"
        using assms(1) Cons by simp
      have "replaceAll (x @ y) old new = new @ replaceAll (drop (length old) (x @ y)) old new"
        using True iff Cons assms(1) replaceAll_hit [of old c "cs @ y" new] by simp
      also have "drop (length old) (x @ y) = drop (length old) x @ y"
        using len by simp
      also have "replaceAll (drop (length old) x @ y) old new =
           replaceAll (drop (length old) x) old new @ replaceAll y old new"
        using 1 lt by blast
      finally show ?thesis
        using True Cons assms(1) replaceAll_hit [of old c cs new] by simp
    next
      case False
      have "replaceAll (x @ y) old new = c # replaceAll (cs @ y) old new"
        using False iff Cons assms(1) replaceAll_miss [of old c "cs @ y" new] by simp
      also have "replaceAll (cs @ y) old new = replaceAll cs old new @ replaceAll y old new"
        using 1 Cons by simp
      finally show ?thesis
        using False Cons assms(1) replaceAll_miss [of old c cs new] by simp
    qed
  qed
qed

lemma replaceAll_append_Cons:
  assumes "old \<noteq> []" and "c \<notin> set (tl old)"
  shows "replaceAll (x @ c # y) old new = replaceAll x old new @ replaceAll (c # y) old new"
proof (rule replaceAll_append [OF assms(1)])
  fix v assume v: "v \<noteq> []" "v \<noteq> old" "suffix v old"
  then obtain u where u: "old = u @ v" by (auto simp: suffix_def)
  with v have "u \<noteq> []" by auto
  then have "set v \<subseteq> set (tl old)" using u by (cases u) auto
  with v(1) assms(2) have "hd v \<noteq> c" by (cases v) auto
  with v(1) show "\<not> prefix v (c # y)" by (cases v) auto
qed

lemma prefix_replaceAll:
  assumes "old \<noteq> []" "new \<noteq> []"
  shows "set new \<inter> set p = {} \<Longrightarrow> prefix p (replaceAll s old new) \<Longrightarrow> prefix p s"
proof (induction s arbitrary: p)
  case Nil
  then show ?case using assms by (simp add: replaceAll_Nil)
next
  case (Cons c cs)
  show ?case
  proof (cases "prefix old (c # cs)")
    case True
    then have "prefix p (new @ replaceAll (drop (length old) (c # cs)) old new)"
      using Cons.prems(2) assms(1) by (simp add: replaceAll_hit)
    with Cons.prems(1) assms(2) have "p = []"
      by (cases p; cases new) auto
    then show ?thesis by simp
  next
    case False
    then have pr: "prefix p (c # replaceAll cs old new)"
      using Cons.prems(2) assms(1) by (simp add: replaceAll_miss)
    show ?thesis
    proof (cases p)
      case Nil then show ?thesis by simp
    next
      case (Cons a p')
      with pr Cons.prems(1) have "a = c" "prefix p' (replaceAll cs old new)" "set new \<inter> set p' = {}"
        by auto
      with Cons.IH [of p'] Cons show ?thesis by simp
    qed
  qed
qed

lemma sublist_disjoint_append:
  assumes "set new \<inter> set p = {}" "p \<noteq> []" "sublist p (new @ r)"
  shows "sublist p r"
  using assms
proof (induction new)
  case Nil then show ?case by simp
next
  case (Cons a new)
  then show ?case by (cases p) (auto simp: sublist_Cons_right)
qed

lemma sublist_replaceAll:
  assumes "old \<noteq> []" "new \<noteq> []" "set new \<inter> set p = {}" "p \<noteq> []"
  shows "sublist p (replaceAll s old new) \<Longrightarrow> sublist p s"
proof (induction s rule: length_induct)
  case (1 s)
  show ?case
  proof (cases s)
    case Nil
    with 1 assms show ?thesis by (simp add: replaceAll_Nil)
  next
    case (Cons c cs)
    show ?thesis
    proof (cases "prefix old s")
      case True
      then have "sublist p (new @ replaceAll (drop (length old) s) old new)"
        using 1(2) Cons assms(1) replaceAll_hit [of old c cs new] by simp
      then have "sublist p (replaceAll (drop (length old) s) old new)"
        using assms(3,4) sublist_disjoint_append by blast
      moreover have "length (drop (length old) s) < length s"
        using assms(1) Cons by simp
      ultimately have "sublist p (drop (length old) s)" using 1(1) by blast
      then show ?thesis
        by (meson sublist_order.order_trans suffix_drop suffix_imp_sublist)
    next
      case False
      then have "sublist p (c # replaceAll cs old new)"
        using 1(2) Cons assms(1) replaceAll_miss [of old c cs new] by simp
      then consider "prefix p (c # replaceAll cs old new)" | "sublist p (replaceAll cs old new)"
        by (auto simp: sublist_Cons_right)
      then show ?thesis
      proof cases
        case 1
        then have "prefix p (replaceAll s old new)"
          using False Cons assms(1) replaceAll_miss [of old c cs new] by simp
        then have "prefix p s" using prefix_replaceAll [OF assms(1,2,3)] by blast
        then show ?thesis by auto
      next
        case 2
        then have "sublist p cs" using "1.IH" Cons by simp
        then show ?thesis using Cons by (simp add: sublist_Cons_right)
      qed
    qed
  qed
qed

lemma replaceAll_removes:
  assumes "old \<noteq> []" "new \<noteq> []" "set new \<inter> set old = {}"
  shows "\<not> sublist old (replaceAll s old new)"
proof (induction s rule: length_induct)
  case (1 s)
  show ?case
  proof (cases s)
    case Nil
    with assms show ?thesis by (simp add: replaceAll_Nil)
  next
    case (Cons c cs)
    show ?thesis
    proof (cases "prefix old s")
      case True
      have lt: "length (drop (length old) s) < length s"
        using assms(1) Cons by simp
      have eq: "replaceAll s old new = new @ replaceAll (drop (length old) s) old new"
        using True Cons assms(1) replaceAll_hit [of old c cs new] by simp
      show ?thesis
      proof
        assume "sublist old (replaceAll s old new)"
        then have "sublist old (replaceAll (drop (length old) s) old new)"
          using eq assms(1,3) sublist_disjoint_append by metis
        then show False using 1 lt by blast
      qed
    next
      case False
      have eq: "replaceAll s old new = c # replaceAll cs old new"
        using False Cons assms(1) replaceAll_miss [of old c cs new] by simp
      show ?thesis
      proof
        assume a: "sublist old (replaceAll s old new)"
        then consider "prefix old (replaceAll s old new)" | "sublist old (replaceAll cs old new)"
          using eq by (auto simp: sublist_Cons_right)
        then show False
        proof cases
          case 1
          then have "prefix old s" using prefix_replaceAll [OF assms] by blast
          with False show False by simp
        next
          case 2
          then show False using "1.IH" Cons by simp
        qed
      qed
    qed
  qed
qed

section \<open>Properties of the scan\<close>

lemma scan_step_pair:
  "scan_step (r, t) c =
     (if c = CHR ''<'' then (r, True)
      else if c = CHR ''>'' then (r, False)
      else if \<not> t then (r @ [c], t)
      else (r, t))"
  by (simp add: scan_step_def)

lemma scan_step_result:
  "foldl scan_step (r, t) s = (r @ fst (foldl scan_step ([], t) s), snd (foldl scan_step ([], t) s))"
proof (induction s arbitrary: r t rule: rev_induct)
  case Nil
  then show ?case by simp
next
  case (snoc c s)
  obtain r0 t0 where p: "foldl scan_step ([], t) s = (r0, t0)"
    by (cases "foldl scan_step ([], t) s")
  then have "foldl scan_step (r, t) s = (r @ r0, t0)"
    using snoc [of r t] by simp
  with p show ?case by (simp add: scan_step_pair)
qed

lemma scan_append:
  "scan (a @ b) = (fst (scan a) @ fst (foldl scan_step ([], snd (scan a)) b),
                   snd (foldl scan_step ([], snd (scan a)) b))"
  unfolding scan_def foldl_append
  by (subst scan_step_result [symmetric]) simp

lemma scan_inTag_swallow:
  "CHR ''>'' \<notin> set b \<Longrightarrow> foldl scan_step (r, True) b = (r, True)"
  by (induction b) (auto simp: scan_step_pair)

lemma scan_plain:
  "CHR ''<'' \<notin> set s \<Longrightarrow> CHR ''>'' \<notin> set s \<Longrightarrow> foldl scan_step (r, False) s = (r @ s, False)"
  by (induction s arbitrary: r) (auto simp: scan_step_pair)

section \<open>Properties of the entity substitution\<close>

lemmas replaceAll_unfold = replaceAll_append_Cons replaceAll_hit replaceAll_miss replaceAll_Nil

lemma replaceEntities_br:
  "replaceEntities (x @ ''&lt;br&gt;'' @ y) = replaceEntities x @ [newline] @ replaceEntities y"
  unfolding replaceEntities_def Let_def
  by (simp add: replaceAll_unfold)

lemma replaceAll_para_own:
  "replaceAll (x @ ''</p><p>'' @ y) ''</p><p>'' new =
   replaceAll x ''</p><p>'' new @ new @ replaceAll y ''</p><p>'' new"
proof -
  have "replaceAll (x @ (''</p><p>'' @ y)) ''</p><p>'' new =
        replaceAll x ''</p><p>'' new @ replaceAll (''</p><p>'' @ y) ''</p><p>'' new"
    by (rule replaceAll_append) (auto simp: suffix_Cons)
  then show ?thesis by (simp add: replaceAll_hit)
qed

lemma replaceEntities_para:
  "replaceEntities (x @ ''&lt;/p&gt;&lt;p&gt;'' @ y) =
   replaceEntities x @ [newline, newline] @ replaceEntities y"
proof -
  let ?r8 = "\<lambda>r. replaceAll (replaceAll (replaceAll (replaceAll (replaceAll (replaceAll (replaceAll (replaceAll r
      ''&lt;'' ''<'') ''&gt;'' ''>'') ''&amp;'' ''&'') ''&quot;'' [dquote])
      ''&#39;'' [squote])
      ''<br>'' [newline]) ''<br/>'' [newline]) ''<br />'' [newline]"
  have "?r8 (x @ ''&lt;/p&gt;&lt;p&gt;'' @ y) = ?r8 x @ ''</p><p>'' @ ?r8 y"
    by (simp add: replaceAll_unfold)
  then show ?thesis
    unfolding replaceEntities_def Let_def
    using replaceAll_para_own [of "?r8 x" "?r8 y" "[newline, newline]"] by simp
qed

lemma scan_outside_append:
  assumes "\<not> snd (scan a)" "CHR ''<'' \<notin> set m" "CHR ''>'' \<notin> set m"
  shows "fst (scan (a @ m @ b)) = fst (scan a) @ m @ fst (scan b)"
proof -
  have m: "scan m = (m, False)"
    using assms(2,3) by (simp add: scan_def scan_plain)
  have b: "foldl scan_step ([], False) b = scan b"
    by (simp add: scan_def)
  have "fst (scan (m @ b)) = fst (scan m) @ fst (foldl scan_step ([], snd (scan m)) b)"
    by (simp add: scan_append)
  also have "\<dots> = m @ fst (scan b)"
    unfolding m by (simp add: b)
  finally have 1: "fst (scan (m @ b)) = m @ fst (scan b)" .
  have "fst (scan (a @ (m @ b))) = fst (scan a) @ fst (foldl scan_step ([], snd (scan a)) (m @ b))"
    by (simp add: scan_append)
  also have "\<dots> = fst (scan a) @ fst (scan (m @ b))"
    using assms(1) by (simp add: scan_def)
  finally show ?thesis using 1 by simp
qed

lemma replaceEntities_no_break:
  "\<not> sublist ''<br>'' (replaceEntities r) \<and> \<not> sublist ''<br/>'' (replaceEntities r) \<and>
   \<not> sublist ''<br />'' (replaceEntities r) \<and> \<not> sublist ''</p><p>'' (replaceEntities r)"
proof -
  define r5 where "r5 = replaceAll (replaceAll (replaceAll (replaceAll (replaceAll r
      ''&lt;'' ''<'') ''&gt;'' ''>'') ''&amp;'' ''&'') ''&quot;'' [dquote])
      ''&#39;'' [squote]"
  define r6 where "r6 = replaceAll r5 ''<br>'' [newline]"
  define r7 where "r7 = replaceAll r6 ''<br/>'' [newline]"
  define r8 where "r8 = replaceAll r7 ''<br />'' [newline]"
  define r9 where "r9 = replaceAll r8 ''</p><p>'' [newline, newline]"
  have res: "replaceEntities r = r9"
    by (simp add: replaceEntities_def r9_def r8_def r7_def r6_def r5_def)
  have a6: "\<not> sublist ''<br>'' r6"
    unfolding r6_def by (rule replaceAll_removes) simp_all
  have a7: "\<not> sublist ''<br/>'' r7"
    unfolding r7_def by (rule replaceAll_removes) simp_all
  have a8: "\<not> sublist ''<br />'' r8"
    unfolding r8_def by (rule replaceAll_removes) simp_all
  have a9: "\<not> sublist ''</p><p>'' r9"
    unfolding r9_def by (rule replaceAll_removes) simp_all
  have b7: "\<not> sublist ''<br>'' r7"
    using a6 sublist_replaceAll [of "''<br/>''" "[newline]" "''<br>''" r6] by (auto simp: r7_def)
  have b8: "\<not> sublist ''<br>'' r8"
    using b7 sublist_replaceAll [of "''<br />''" "[newline]" "''<br>''" r7] by (auto simp: r8_def)
  have b9: "\<not> sublist ''<br>'' r9"
    using b8 sublist_replaceAll [of "''</p><p>''" "[newline, newline]" "''<br>''" r8]
    by (auto simp: r9_def)
  have c8: "\<not> sublist ''<br/>'' r8"
    using a7 sublist_replaceAll [of "''<br />''" "[newline]" "''<br/>''" r7] by (auto simp: r8_def)
  have c9: "\<not> sublist ''<br/>'' r9"
    using c8 sublist_replaceAll [of "''</p><p>''" "[newline, newline]" "''<br/>''" r8]
    by (auto simp: r9_def)
  have d9: "\<not> sublist ''<br />'' r9"
    using a8 sublist_replaceAll [of "''</p><p>''" "[newline, newline]" "''<br />''" r8]
    by (auto simp: r9_def)
  show ?thesis using res a9 b9 c9 d9 by simp
qed

section \<open>Properties of the accessors\<close>

lemma assert_map_object [simp]: "assert_map (Some (JObject f)) = (Some f, True)"
  by (simp add: assert_map_def)


lemma stripHTML_Nil: "stripHTML [] = []"
  by (simp add: stripHTML_def scan_def replaceEntities_def replaceAll_Nil)

lemma show_int_0: "show_int 0 = ''0''"
  by code_simp

section \<open>Properties of the fetcher and of the program\<close>

lemma ApiError_message:
  "sublist (show_int statusCode) (Error (ApiError statusCode body)) \<and>
   suffix body (Error (ApiError statusCode body))"
proof
  show "sublist (show_int statusCode) (Error (ApiError statusCode body))"
    unfolding Error.simps by (rule sublist_appendI)
  have "suffix body (''API error (status '' @ (show_int statusCode @ (''): '' @ body)))"
    by (intro suffix_appendI) (rule suffix_order.refl)
  then show "suffix body (Error (ApiError statusCode body))"
    unfolding Error.simps .
qed

lemma makeRequest_answer:
  assumes "new_request w (flagInstanceURL fl @ endpoint) = None"
    and "client_do w (flagInstanceURL fl @ endpoint) token = Inr (statusCode, Inr body)"
  shows "makeRequest w fl token endpoint =
           ([flagInstanceURL fl @ endpoint],
            if statusCode \<noteq> 200 then Inl (ApiError statusCode body) else Inr body)"
  unfolding makeRequest_def Let_def assms by simp

lemma outputError_fields:
  "stdout (outputError w calls msg) = error_envelope w msg @ [newline]"
  "stderr (outputError w calls msg) = ''Error: '' @ msg @ [newline]"
  "exit_code (outputError w calls msg) = 1"
  "requests (outputError w calls msg) = calls"
  by (simp_all add: outputError_def)

lemma main_no_token:
  "args \<noteq> [] \<Longrightarrow> main w fl [] args = outputError w [] ''MASTODON_TOKEN environment variable not set''"
  by (simp add: main_def)

lemma main_refused:
  "args \<noteq> [] \<Longrightarrow> token \<noteq> [] \<Longrightarrow> run_command w fl token args = Inl errMsg \<Longrightarrow>
   main w fl token args = outputError w [] errMsg"
  by (simp add: main_def)




lemma main_text:
  "args \<noteq> [] \<Longrightarrow> token \<noteq> [] \<Longrightarrow> run_command w fl token args = Inr (calls, Inr d) \<Longrightarrow>
   \<not> flagJSON fl \<Longrightarrow>
   main w fl token args =
     \<lparr>stdout = formatText (hd args) d, stderr = [], exit_code = 0, requests = calls\<rparr>"
  by (simp add: main_def)



lemma run_command_no_query:
  "run_command w fl token [''search''] = Inl ''search command requires a query argument''"
  by (simp add: run_command_def)

lemma show_int_20: "show_int 20 = ''20''"
  by code_simp



lemma run_home_200:
  "run_command (canned_world 200 ''[]'' [] None) default_flags ''tok'' [''home''] =
     Inr ([''https://mastodon.social/api/v1/timelines/home?limit=20''], Inr (MapSlice []))"
  by (simp add: run_command_def getHomeTimeline_def makeRequest_def canned_world_def
      default_flags_def show_int_20)

lemma main_home_requests:
  "requests (main (canned_world 200 ''[]'' [] None) default_flags ''tok'' [''home'']) =
     [''https://mastodon.social/api/v1/timelines/home?limit=20'']"
  using main_text [of "[''home'']" "''tok''" _ default_flags, OF _ _ run_home_200]
  by (simp add: default_flags_def)

section \<open>The claims\<close>

text \<open>
  C1. On the input \<open><p>Hello &amp; welcome</p><p>World</p>\<close> the claim expects two
  newlines between \<open>welcome\<close> and \<open>World\<close>. The loop has removed the tags
  \<open></p><p>\<close> before the replacement of \<open></p><p>\<close> runs, so \<open>stripHTML\<close>
  returns \<open>Hello & welcomeWorld\<close>.
\<close>

theorem stripHTML_spec_example:
  "stripHTML ''<p>Hello &amp; welcome</p><p>World</p>'' = ''Hello & welcomeWorld'' \<and>
   stripHTML ''<p>Hello &amp; welcome</p><p>World</p>''
     \<noteq> ''Hello & welcome'' @ [newline, newline] @ ''World''"
proof -
  have "stripHTML ''<p>Hello &amp; welcome</p><p>World</p>'' = ''Hello & welcomeWorld''"
    by code_simp
  then show ?thesis by simp
qed



text \<open>
  C3 (as amended). When the request could be sent and the body of the response was read,
  a status code other than 200 makes \<open>makeRequest\<close> return the error whose message is
  \<open>API error (status N): \<close> followed by the body as it was read, so the message
  contains the status code in decimal and ends with the body; the status code 200 makes it
  return the body and no error.
\<close>

theorem makeRequest_status:
  assumes "new_request w (flagInstanceURL fl @ endpoint) = None"
    and "client_do w (flagInstanceURL fl @ endpoint) token = Inr (statusCode, Inr body)"
  shows "(statusCode \<noteq> 200 \<longrightarrow>
            snd (makeRequest w fl token endpoint) = Inl (ApiError statusCode body) \<and>
            Error (ApiError statusCode body)
              = ''API error (status '' @ show_int statusCode @ ''): '' @ body \<and>
            sublist (show_int statusCode) (Error (ApiError statusCode body)) \<and>
            suffix body (Error (ApiError statusCode body))) \<and>
         (statusCode = 200 \<longrightarrow> snd (makeRequest w fl token endpoint) = Inr body)"
proof (intro conjI impI)
  assume "statusCode \<noteq> 200"
  then show "snd (makeRequest w fl token endpoint) = Inl (ApiError statusCode body)"
    by (simp add: makeRequest_answer [OF assms])
next
  show "Error (ApiError statusCode body) = ''API error (status '' @ show_int statusCode @ ''): '' @ body"
    by (rule Error.simps)
next
  show "sublist (show_int statusCode) (Error (ApiError statusCode body))"
    using ApiError_message by blast
next
  show "suffix body (Error (ApiError statusCode body))"
    using ApiError_message by blast
next
  assume "statusCode = 200"
  then show "snd (makeRequest w fl token endpoint) = Inr body"
    by (simp add: makeRequest_answer [OF assms])
qed

theorem makeRequest_status_witness:
  "new_request (canned_world 404 ''Not Found'' [] None) (flagInstanceURL default_flags @ ''/x'') = None \<and>
   client_do (canned_world 404 ''Not Found'' [] None) (flagInstanceURL default_flags @ ''/x'') ''tok''
     = Inr (404, Inr ''Not Found'') \<and>
   (404::int) \<noteq> 200 \<and>
   snd (makeRequest (canned_world 404 ''Not Found'' [] None) default_flags ''tok'' ''/x'')
     = Inl (ApiError 404 ''Not Found'') \<and>
   Error (ApiError 404 ''Not Found'') = ''API error (status 404): Not Found'' \<and>
   new_request (canned_world 200 ''[]'' [] None) (flagInstanceURL default_flags @ ''/x'') = None \<and>
   client_do (canned_world 200 ''[]'' [] None) (flagInstanceURL default_flags @ ''/x'') ''tok''
     = Inr (200, Inr ''[]'') \<and>
   snd (makeRequest (canned_world 200 ''[]'' [] None) default_flags ''tok'' ''/x'') = Inr ''[]''"
proof -
  let ?w = "canned_world 404 ''Not Found'' [] None"
  let ?v = "canned_world 200 ''[]'' [] None"
  have h1: "new_request ?w (flagInstanceURL default_flags @ ''/x'') = None"
    by (simp add: canned_world_def)
  have h2: "client_do ?w (flagInstanceURL default_flags @ ''/x'') ''tok'' = Inr (404, Inr ''Not Found'')"
    by (simp add: canned_world_def)
  have h3: "new_request ?v (flagInstanceURL default_flags @ ''/x'') = None"
    by (simp add: canned_world_def)
  have h4: "client_do ?v (flagInstanceURL default_flags @ ''/x'') ''tok'' = Inr (200, Inr ''[]'')"
    by (simp add: canned_world_def)
  have d: "show_int 404 = ''404''" by code_simp
  have n: "(404::int) \<noteq> 200" by simp
  have r1: "snd (makeRequest ?w default_flags ''tok'' ''/x'') = Inl (ApiError 404 ''Not Found'')"
    using makeRequest_status [OF h1 h2] n by blast
  have "Error (ApiError 404 ''Not Found'') = ''API error (status '' @ show_int 404 @ ''): '' @ ''Not Found''"
    using makeRequest_status [OF h1 h2] n by blast
  then have r1': "Error (ApiError 404 ''Not Found'') = ''API error (status 404): Not Found''"
    unfolding d by simp
  have r2: "snd (makeRequest ?v default_flags ''tok'' ''/x'') = Inr ''[]''"
    using makeRequest_status [OF h3 h4] by blast
  show ?thesis using h1 h2 h3 h4 n r1 r1' r2 by blast
qed

text \<open>
  C3 as stated lets every status code from 200 to 299 pass. The program compares with
  200 alone: a response \<open>204\<close> is an error.
\<close>

theorem makeRequest_204_counterexample:
  "snd (makeRequest (canned_world 204 [] [] None) default_flags ''tok'' ''/api/v1/timelines/home?limit=20'')
     = Inl (ApiError 204 [])"
  by (simp add: makeRequest_def canned_world_def)




text \<open>
  C5. A field lookup never fails. On the nil record, on a record without the key, and on
  a record that holds a value of another type under the key, \<open>getStringField\<close> yields
  the empty string and \<open>getFloatField\<close> yields zero; a value of the right type is
  returned as it is. Rendering goes on with these defaults: the nil record itself is
  rendered as a post, and as a mention, whose fields are all empty or zero.
\<close>

theorem accessors_default:
  "getStringField None key = [] \<and> getFloatField None key = 0 \<and>
   (index m key = None \<longrightarrow> getStringField m key = [] \<and> getFloatField m key = 0) \<and>
   ((\<forall>s. index m key \<noteq> Some (JString s)) \<longrightarrow> getStringField m key = []) \<and>
   ((\<forall>x. index m key \<noteq> Some (JNumber x)) \<longrightarrow> getFloatField m key = 0) \<and>
   (index m key = Some (JString s) \<longrightarrow> getStringField m key = s) \<and>
   (index m key = Some (JNumber x) \<longrightarrow> getFloatField m key = x) \<and>
   print_post i (extract_post None) =
     ''--- Post '' @ show_int (int i + 1) @ '' ---'' @ [newline]
     @ ''@ ()'' @ [newline] @ [newline] @ [newline] @ [newline, newline]
     @ speech_sign @ '' 0  '' @ repeat_sign @ '' 0  '' @ star_sign @ '' 0'' @ [newline]
     @ link_sign @ '' '' @ [newline, newline] \<and>
   print_mention i None =
     ''--- Mention '' @ show_int (int i + 1) @ '' ---'' @ [newline]
     @ ''@ () mentioned you'' @ [newline] @ [newline] @ [newline] @ [newline, newline]"
proof -
  have 1: "getStringField None key = []" "getFloatField None key = 0" for key
    by (simp_all add: getStringField_def getFloatField_def)
  have 2: "getStringField m key = [] \<and> getFloatField m key = 0" if "index m key = None"
    using that by (simp add: getStringField_def getFloatField_def)
  have 3: "getStringField m key = []" if "\<forall>s. index m key \<noteq> Some (JString s)"
    using that by (auto simp: getStringField_def split: option.splits json.splits)
  have 4: "getFloatField m key = 0" if "\<forall>x. index m key \<noteq> Some (JNumber x)"
    using that by (auto simp: getFloatField_def split: option.splits json.splits)
  have 5: "getStringField m key = s" if "index m key = Some (JString s)"
    using that by (cases m) (simp_all add: getStringField_def index_def)
  have 6: "getFloatField m key = x" if "index m key = Some (JNumber x)"
    using that by (cases m) (simp_all add: getFloatField_def index_def)
  have i: "index None k = None" for k
    by (simp add: index_def)
  have a: "assert_map None = (None, False)"
    by (simp add: assert_map_def)
  have 7: "extract_post None =
     \<lparr>isReblog = False, boostedBy = [], content = [], createdAt = [], reblogsCount = 0,
      favoritesCount = 0, repliesCount = 0, postURL = [], username = [], displayName = []\<rparr>"
    by (simp add: extract_post_def i a 1 stripHTML_Nil)
  have 8: "print_post i (extract_post None) =
     ''--- Post '' @ show_int (int i + 1) @ '' ---'' @ [newline]
     @ ''@ ()'' @ [newline] @ [newline] @ [newline] @ [newline, newline]
     @ speech_sign @ '' 0  '' @ repeat_sign @ '' 0  '' @ star_sign @ '' 0'' @ [newline]
     @ link_sign @ '' '' @ [newline, newline]"
    unfolding 7 by (simp add: print_post_def go_int_def show_int_0)
  have 9: "print_mention i None =
     ''--- Mention '' @ show_int (int i + 1) @ '' ---'' @ [newline]
     @ ''@ () mentioned you'' @ [newline] @ [newline] @ [newline] @ [newline, newline]"
    by (simp add: print_mention_def i a 1 stripHTML_Nil)
  show ?thesis using 1 2 3 4 5 6 8 9 by blast
qed

theorem accessors_default_witness:
  "index (Some [''url'' \<mapsto> JNumber 5]) ''content'' = None \<and>
   getStringField (Some [''url'' \<mapsto> JNumber 5]) ''content'' = [] \<and>
   getFloatField (Some [''url'' \<mapsto> JNumber 5]) ''content'' = 0 \<and>
   (\<forall>s. index (Some [''url'' \<mapsto> JNumber 5]) ''url'' \<noteq> Some (JString s)) \<and>
   getStringField (Some [''url'' \<mapsto> JNumber 5]) ''url'' = [] \<and>
   (\<forall>x. index (Some [''replies_count'' \<mapsto> JString ''many'']) ''replies_count'' \<noteq> Some (JNumber x)) \<and>
   getFloatField (Some [''replies_count'' \<mapsto> JString ''many'']) ''replies_count'' = 0 \<and>
   index (Some [''url'' \<mapsto> JNumber 5]) ''url'' = Some (JNumber 5) \<and>
   getFloatField (Some [''url'' \<mapsto> JNumber 5]) ''url'' = 5 \<and>
   index (Some [''replies_count'' \<mapsto> JString ''many'']) ''replies_count'' = Some (JString ''many'') \<and>
   getStringField (Some [''replies_count'' \<mapsto> JString ''many'']) ''replies_count'' = ''many''"
proof -
  let ?m = "Some [''url'' \<mapsto> JNumber 5]"
  let ?n = "Some [''replies_count'' \<mapsto> JString ''many'']"
  have h1: "index ?m ''content'' = None" by (simp add: index_def)
  have h2: "\<forall>s. index ?m ''url'' \<noteq> Some (JString s)" by (simp add: index_def)
  have h3: "\<forall>x. index ?n ''replies_count'' \<noteq> Some (JNumber x)" by (simp add: index_def)
  have h4: "index ?m ''url'' = Some (JNumber 5)" by (simp add: index_def)
  have h5: "index ?n ''replies_count'' = Some (JString ''many'')" by (simp add: index_def)
  have r1: "getStringField ?m ''content'' = [] \<and> getFloatField ?m ''content'' = 0"
    using accessors_default [of "''content''" ?m] h1 by blast
  have r2: "getStringField ?m ''url'' = []"
    using accessors_default [of "''url''" ?m] h2 by blast
  have r3: "getFloatField ?n ''replies_count'' = 0"
    using accessors_default [of "''replies_count''" ?n] h3 by blast
  have r4: "getFloatField ?m ''url'' = 5"
    using accessors_default [of "''url''" ?m _ 5] h4 by blast
  have r5: "getStringField ?n ''replies_count'' = ''many''"
    using accessors_default [of "''replies_count''" ?n "''many''"] h5 by blast
  show ?thesis using h1 h2 h3 h4 h5 r1 r2 r3 r4 r5 by simp
qed




text \<open>
  C7. When the token is absent the run ends with exit code 1 and a report on the error
  stream, and has sent no request; once a command is given that report is the one of the
  missing token. When the command \<open>search\<close> comes without a query, the run ends the same
  way with the report of the missing query (or of the missing token), and has sent no
  request.
\<close>

theorem config_errors_precede_network:
  "(token = [] \<longrightarrow>
      requests (main w fl token args) = [] \<and> exit_code (main w fl token args) = 1 \<and>
      stderr (main w fl token args) \<noteq> []) \<and>
   (token = [] \<and> args \<noteq> [] \<longrightarrow>
      main w fl token args = outputError w [] ''MASTODON_TOKEN environment variable not set'') \<and>
   (args \<noteq> [] \<and> hd args = ''search'' \<and> length args < 2 \<longrightarrow>
      requests (main w fl token args) = [] \<and> exit_code (main w fl token args) = 1 \<and>
      main w fl token args =
        outputError w []
          (if token = [] then ''MASTODON_TOKEN environment variable not set''
           else ''search command requires a query argument''))"
proof -
  have 1: "requests (main w fl token args) = [] \<and> exit_code (main w fl token args) = 1 \<and>
      stderr (main w fl token args) \<noteq> []" if "token = []"
    using that by (simp add: main_def outputError_def usage_def)
  have 2: "main w fl token args = outputError w [] ''MASTODON_TOKEN environment variable not set''"
    if "token = [] \<and> args \<noteq> []"
    using that main_no_token by blast
  have 3: "requests (main w fl token args) = [] \<and> exit_code (main w fl token args) = 1 \<and>
      main w fl token args =
        outputError w []
          (if token = [] then ''MASTODON_TOKEN environment variable not set''
           else ''search command requires a query argument'')"
    if h: "args \<noteq> [] \<and> hd args = ''search'' \<and> length args < 2"
  proof -
    from h have args: "args = [''search'']"
      by (cases args) auto
    have "main w fl token args =
        outputError w []
          (if token = [] then ''MASTODON_TOKEN environment variable not set''
           else ''search command requires a query argument'')"
    proof (cases "token = []")
      case True
      then show ?thesis using h main_no_token by simp
    next
      case False
      then show ?thesis
        using main_refused [of args token w fl] run_command_no_query args by auto
    qed
    then show ?thesis by (simp add: outputError_fields)
  qed
  show ?thesis using 1 2 3 by blast
qed

theorem config_errors_precede_network_witness:
  "requests (main (canned_world 200 ''[]'' [] None) default_flags [] [''home'']) = [] \<and>
   exit_code (main (canned_world 200 ''[]'' [] None) default_flags [] [''home'']) = 1 \<and>
   main (canned_world 200 ''[]'' [] None) default_flags [] [''home''] =
     outputError (canned_world 200 ''[]'' [] None) []
       ''MASTODON_TOKEN environment variable not set'' \<and>
   [''search''] \<noteq> [] \<and> hd [''search''] = ''search'' \<and> length [''search''] < 2 \<and>
   requests (main (canned_world 200 ''[]'' [] None) default_flags ''tok'' [''search'']) = [] \<and>
   exit_code (main (canned_world 200 ''[]'' [] None) default_flags ''tok'' [''search'']) = 1 \<and>
   main (canned_world 200 ''[]'' [] None) default_flags ''tok'' [''search''] =
     outputError (canned_world 200 ''[]'' [] None) []
       ''search command requires a query argument''"
proof -
  let ?v = "canned_world 200 ''[]'' [] None"
  have ne: "[''home''] \<noteq> []" by simp
  have s: "[''search''] \<noteq> [] \<and> hd [''search''] = ''search'' \<and> length [''search''] < 2" by simp
  have tok: "''tok'' \<noteq> []" by simp
  have 1: "requests (main ?v default_flags [] [''home'']) = [] \<and>
           exit_code (main ?v default_flags [] [''home'']) = 1 \<and>
           main ?v default_flags [] [''home''] =
             outputError ?v [] ''MASTODON_TOKEN environment variable not set''"
    using config_errors_precede_network [of "[]" ?v default_flags "[''home'']"] ne by blast
  have 2: "requests (main ?v default_flags ''tok'' [''search'']) = [] \<and>
           exit_code (main ?v default_flags ''tok'' [''search'']) = 1 \<and>
           main ?v default_flags ''tok'' [''search''] =
             outputError ?v []
               (if ''tok'' = [] then ''MASTODON_TOKEN environment variable not set''
                else ''search command requires a query argument'')"
    using config_errors_precede_network [of "''tok''" ?v default_flags "[''search'']"] s by blast
  show ?thesis using 1 2 s tok by (simp add: outputError_fields)
qed

text \<open>
  C8. On an empty sequence of notifications \<open>formatMentions\<close> prints the single line
  \<open>No mentions found.\<close> and nothing else. When the field \<open>statuses\<close> of the search
  result is absent, is no sequence or is the empty sequence, \<open>formatSearchResults\<close>
  prints the single line \<open>No posts found.\<close> and nothing else.
\<close>

theorem empty_results_text:
  "formatMentions (MapSlice []) = ''No mentions found.'' @ [newline] \<and>
   formatText ''mentions'' (MapSlice []) = ''No mentions found.'' @ [newline] \<and>
   ((\<forall>xs. index m ''statuses'' \<noteq> Some (JArray xs)) \<or> index m ''statuses'' = Some (JArray []) \<longrightarrow>
      formatSearchResults (MapValue m) = ''No posts found.'' @ [newline] \<and>
      formatText ''search'' (MapValue m) = ''No posts found.'' @ [newline])"
proof -
  have 1: "formatMentions (MapSlice []) = ''No mentions found.'' @ [newline]"
    by (simp add: formatMentions_def)
  have 2: "formatText ''mentions'' (MapSlice []) = ''No mentions found.'' @ [newline]"
    by (simp add: formatText_def formatMentions_def)
  have 3: "formatSearchResults (MapValue m) = ''No posts found.'' @ [newline]"
    if "(\<forall>xs. index m ''statuses'' \<noteq> Some (JArray xs)) \<or> index m ''statuses'' = Some (JArray [])"
  proof -
    from that have "fst (assert_slice (index m ''statuses'')) = []"
      by (auto simp: assert_slice_def split: option.splits json.splits)
    then show ?thesis
      by (cases "assert_slice (index m ''statuses'')") (simp add: formatSearchResults_def)
  qed
  have 4: "formatText ''search'' (MapValue m) = formatSearchResults (MapValue m)"
    by (simp add: formatText_def)
  show ?thesis using 1 2 3 4 by simp
qed

theorem empty_results_text_witness:
  "(\<forall>xs. index (Some Map.empty) ''statuses'' \<noteq> Some (JArray xs)) \<and>
   formatSearchResults (MapValue (Some Map.empty)) = ''No posts found.'' @ [newline] \<and>
   (\<forall>xs. index None ''statuses'' \<noteq> Some (JArray xs)) \<and>
   formatSearchResults (MapValue None) = ''No posts found.'' @ [newline] \<and>
   (\<forall>xs. index (Some [''statuses'' \<mapsto> JString ''none'']) ''statuses'' \<noteq> Some (JArray xs)) \<and>
   formatText ''search'' (MapValue (Some [''statuses'' \<mapsto> JString ''none''])) = ''No posts found.'' @ [newline] \<and>
   index (Some [''statuses'' \<mapsto> JArray []]) ''statuses'' = Some (JArray []) \<and>
   formatText ''search'' (MapValue (Some [''statuses'' \<mapsto> JArray []])) = ''No posts found.'' @ [newline]"
proof -
  have h1: "\<forall>xs. index (Some Map.empty) ''statuses'' \<noteq> Some (JArray xs)"
    by (simp add: index_def)
  have h2: "\<forall>xs. index None ''statuses'' \<noteq> Some (JArray xs)"
    by (simp add: index_def)
  have h3: "\<forall>xs. index (Some [''statuses'' \<mapsto> JString ''none'']) ''statuses'' \<noteq> Some (JArray xs)"
    by (simp add: index_def)
  have h4: "index (Some [''statuses'' \<mapsto> JArray []]) ''statuses'' = Some (JArray [])"
    by (simp add: index_def)
  show ?thesis
    using h1 h2 h3 h4
      empty_results_text [of "Some Map.empty"] empty_results_text [of None]
      empty_results_text [of "Some [''statuses'' \<mapsto> JString ''none'']"]
      empty_results_text [of "Some [''statuses'' \<mapsto> JArray []]"]
    by blast
qed

text \<open>
  C9. When the input holds a \<open><\<close> that no \<open>>\<close> follows, the tag-removal scan ends
  inside the tag and has dropped that \<open><\<close> and every character after it: the scan of
  the whole input yields what the scan of the part before the \<open><\<close> yields, and the
  entity substitution is applied to that.
\<close>

theorem unclosed_tag_swallows_rest:
  assumes "CHR ''>'' \<notin> set b"
  shows "scan (a @ CHR ''<'' # b) = (fst (scan a), True) \<and>
         stripHTML (a @ CHR ''<'' # b) = stripHTML a"
proof -
  have "foldl scan_step ([], snd (scan a)) (CHR ''<'' # b) = ([], True)"
    using assms by (simp add: scan_step_pair scan_inTag_swallow)
  then have "scan (a @ CHR ''<'' # b) = (fst (scan a), True)"
    by (simp add: scan_append)
  then show ?thesis by (simp add: stripHTML_def)
qed

theorem unclosed_tag_swallows_rest_witness:
  "CHR ''>'' \<notin> set '' 3 and more'' \<and>
   scan (''<b>2</b> '' @ CHR ''<'' # '' 3 and more'') = (''2 '', True) \<and>
   stripHTML (''<b>2</b> '' @ CHR ''<'' # '' 3 and more'') = ''2 ''"
proof -
  have h: "CHR ''>'' \<notin> set '' 3 and more''" by simp
  have "scan ''<b>2</b> '' = (''2 '', False)" by code_simp
  moreover have "stripHTML ''<b>2</b> '' = ''2 ''" by code_simp
  ultimately show ?thesis
    using h unclosed_tag_swallows_rest [OF h, of "''<b>2</b> ''"] by simp
qed

text \<open>
  C10 (as amended). Entities are substituted after the tags are removed, and the break
  markers are replaced last. So an occurrence of the escaped text \<open>&lt;br&gt;\<close> that
  the scan meets outside a tag becomes one newline, and such an occurrence of
  \<open>&lt;/p&gt;&lt;p&gt;\<close> becomes two, whatever stands before and after it; and the
  output of \<open>stripHTML\<close> never contains \<open><br>\<close>, \<open><br/>\<close>, \<open><br />\<close> or
  \<open></p><p>\<close>.
\<close>

theorem escaped_breaks_become_newlines:
  "(\<not> snd (scan a) \<longrightarrow>
      stripHTML (a @ ''&lt;br&gt;'' @ b) = stripHTML a @ [newline] @ stripHTML b) \<and>
   (\<not> snd (scan a) \<longrightarrow>
      stripHTML (a @ ''&lt;/p&gt;&lt;p&gt;'' @ b) = stripHTML a @ [newline, newline] @ stripHTML b) \<and>
   \<not> sublist ''<br>'' (stripHTML s) \<and> \<not> sublist ''<br/>'' (stripHTML s) \<and>
   \<not> sublist ''<br />'' (stripHTML s) \<and> \<not> sublist ''</p><p>'' (stripHTML s)"
proof -
  have br: "stripHTML (a @ ''&lt;br&gt;'' @ b) = stripHTML a @ [newline] @ stripHTML b"
    if "\<not> snd (scan a)"
    unfolding stripHTML_def
    using scan_outside_append [OF that, of "''&lt;br&gt;''" b] replaceEntities_br
    by simp
  have para: "stripHTML (a @ ''&lt;/p&gt;&lt;p&gt;'' @ b) = stripHTML a @ [newline, newline] @ stripHTML b"
    if "\<not> snd (scan a)"
    unfolding stripHTML_def
    using scan_outside_append [OF that, of "''&lt;/p&gt;&lt;p&gt;''" b] replaceEntities_para
    by simp
  show ?thesis
    using br para replaceEntities_no_break [of "fst (scan s)"]
    by (simp add: stripHTML_def)
qed

theorem escaped_breaks_become_newlines_witness:
  "\<not> snd (scan ''<p>one</p>'') \<and>
   stripHTML (''<p>one</p>'' @ ''&lt;br&gt;'' @ ''two'') = ''one'' @ [newline] @ ''two'' \<and>
   stripHTML (''<p>one</p>'' @ ''&lt;/p&gt;&lt;p&gt;'' @ ''two'') = ''one'' @ [newline, newline] @ ''two''"
proof -
  have s: "\<not> snd (scan ''<p>one</p>'')" by code_simp
  have 1: "stripHTML ''<p>one</p>'' = ''one''" by code_simp
  have 2: "stripHTML ''two'' = ''two''" by code_simp
  show ?thesis
    using s 1 2 escaped_breaks_become_newlines [of "''<p>one</p>''" "''two''" "[]"] by simp
qed

text \<open>
  C10 as stated speaks of every occurrence. An occurrence inside a tag, such as in the
  value of an attribute, is removed with the tag and leaves no newline.
\<close>

theorem escaped_break_inside_tag_counterexample:
  "sublist ''&lt;br&gt;'' ''<a title=&lt;br&gt;>x</a>'' \<and>
   stripHTML ''<a title=&lt;br&gt;>x</a>'' = ''x''"
proof -
  have "''<a title=&lt;br&gt;>x</a>'' = ''<a title='' @ ''&lt;br&gt;'' @ ''>x</a>''" by simp
  then have "sublist ''&lt;br&gt;'' ''<a title=&lt;br&gt;>x</a>''"
    by (metis sublist_appendI)
  moreover have "stripHTML ''<a title=&lt;br&gt;>x</a>'' = ''x''" by code_simp
  ultimately show ?thesis by simp
qed


end
